theory Spec2Isabelle
  imports Main "HOL-Library.Sublist"
begin

section \<open>Values, exceptions and the collaborators of \<open>skew/awsclient.py\<close>\<close>

text \<open>
  The module wraps three external libraries: boto3/botocore (sessions, clients, STS,
  paginators), jmespath (compiled queries) and the standard library (\<open>datetime\<close>,
  \<open>time.sleep\<close>). None of them is part of the repository, so each is a parameter of the
  model: a record of functions whose results are sums (\<open>Inl\<close> is a raised exception).
  Logging (\<open>LOG.debug\<close>) has no effect on control flow and is left out.
\<close>

record datetime =
  year :: nat
  month :: nat
  day :: nat
  hour :: nat
  minute :: nat
  second :: nat
  microsecond :: nat

text \<open>Python data as returned by the SDK: the JSON-like values plus timestamps.\<close>

datatype pyval =
    PNone
  | PBool bool
  | PInt int
  | PStr string
  | PList "pyval list"
  | PDict "(string \<times> pyval) list"
  | PDatetime datetime

text \<open>
  Exceptions derived from \<open>Exception\<close>, split the way the handlers of \<open>call\<close> split them:
  botocore's \<open>ClientError\<close>, carried with its \<open>str(e)\<close>, and every other class, carried with
  its class name. (Signals outside \<open>Exception\<close>, such as \<open>KeyboardInterrupt\<close>, are not
  exceptions in this sense and are not modelled.)
\<close>

datatype exn = ClientError string | OtherException string

datatype 'a outcome = Returns 'a | Raises exn

type_synonym 'a result = "exn + 'a"

type_synonym kwargs = "(string \<times> pyval) list"

subsection \<open>\<open>json_encoder\<close>\<close>

fun isinstance_datetime :: "pyval \<Rightarrow> bool" where
  "isinstance_datetime (PDatetime d) = True"
| "isinstance_datetime v = False"

text \<open>\<open>obj.isoformat()\<close> belongs to the standard library: the parameter \<open>isoformat\<close>.\<close>

fun json_encoder :: "(datetime \<Rightarrow> string) \<Rightarrow> pyval \<Rightarrow> pyval" where
  "json_encoder isoformat (PDatetime d) = PStr (isoformat d)"
| "json_encoder isoformat obj = obj"

section \<open>Construction: \<open>AWSClient.__init__\<close> and \<open>_create_client\<close>\<close>

text \<open>
  An account's entry in the configuration, \<open>config['accounts'][account_id]\<close>: a
  dictionary. \<open>acct_credentials\<close> is what \<open>.get('credentials')\<close> returns: \<open>None\<close> when the key
  is absent or holds \<open>None\<close>, else a dictionary of session keyword arguments, which may
  be empty. The other three keys are tested with \<open>in\<close>, so their presence and their value
  are kept apart: \<open>None\<close> is the absent key, \<open>Some None\<close> the key that holds \<open>None\<close>,
  \<open>Some (Some s)\<close> the key that holds the string \<open>s\<close>, which may be empty.
\<close>

type_synonym creds = "(string \<times> string) list"

record account =
  acct_credentials :: "creds option"
  acct_profile :: "string option option"
  acct_role_arn :: "string option option"
  acct_external_id :: "string option option"

text \<open>\<open>config['accounts']\<close>: a dictionary from account ids to account entries.\<close>

type_synonym config = "string \<rightharpoonup> account"

text \<open>
  The keyword arguments of the constructor. \<open>kw_placebo\<close> says whether a (truthy) placebo
  module was passed; \<open>kw_placebo_mode = None\<close> is the absent key, which
  \<open>kwargs.get('placebo_mode', 'record')\<close> reads as \<open>'record'\<close>.
\<close>

record init_kwargs =
  kw_config :: "config option"
  kw_aws_creds :: "creds option"
  kw_placebo :: bool
  kw_placebo_dir :: "string option"
  kw_placebo_mode :: "string option"

text \<open>The three ways \<open>_create_client\<close> opens a \<open>boto3.Session\<close>.\<close>

datatype session =
    Session_kwargs creds
  | Session_profile string
  | Session_keys string string string

datatype pill = Pill_attached | Pill_record | Pill_playback

text \<open>
  The client handle returned by \<open>session.client(service_name, config=Config(...),
  region_name=...)\<close>: the session it was made from, the placebo pill attached to that
  session (if any), and the arguments of the call.
\<close>

record client =
  cl_session :: session
  cl_pill :: "pill option"
  cl_service :: string
  cl_region :: "string option"
  cl_connect_timeout :: nat
  cl_read_timeout :: nat
  cl_max_attempts :: nat
  cl_retry_mode :: string

text \<open>
  The calls made to the SDK while a client is created, in order. \<open>Assume_role arn ext\<close> is
  \<open>sts.assume_role(RoleArn=arn, RoleSessionName='skew')\<close>, with \<open>ExternalId=e\<close> added when
  \<open>ext = Some e\<close>; \<open>arn = None\<close> is the call with \<open>RoleArn=None\<close>.
\<close>

datatype sdk_call =
    Open_session session
  | Sts_client
  | Assume_role "string option" "string option"
  | Placebo_attach string
  | Pill_mode pill
  | Session_client string "string option"

text \<open>
  The security token service: what \<open>assume_role\<close> answers for a role and an external id,
  the triple \<open>AccessKeyId\<close>, \<open>SecretAccessKey\<close>, \<open>SessionToken\<close> of
  \<open>assumed_role['Credentials']\<close>, or the exception it raises.
\<close>

type_synonym sts = "string option \<Rightarrow> string option \<Rightarrow> (string \<times> string \<times> string) result"

text \<open>The attributes of an \<open>AWSClient\<close> set before \<open>_create_client\<close> runs.\<close>

record awsclient_attrs =
  self_config :: config
  service_name :: string
  region_name :: "string option"
  account_id :: string
  has_credentials :: bool
  aws_creds :: "creds option"
  profile :: "string option"
  external_id :: "string option"
  role_arn :: "string option"
  placebo :: bool
  placebo_dir :: "string option"
  placebo_mode :: string

text \<open>The finished object: the attributes and \<open>self._client\<close>.\<close>

record awsclient = awsclient_attrs +
  self_client :: client

text \<open>Python truthiness of an optional string or dictionary: not \<open>None\<close> and not empty.\<close>

fun truthy :: "'a list option \<Rightarrow> bool" where
  "truthy None = False"
| "truthy (Some xs) = (xs \<noteq> [])"

text \<open>
  The first statement of \<open>_create_client\<close>: the session, by the \<open>if\<close>/\<open>elif\<close>/\<open>else\<close> on
  \<open>self.aws_creds\<close> and \<open>self.profile\<close>. The result is the log of SDK calls and the session
  or the exception of \<open>assume_role\<close>. Opening a session and creating a client are taken
  to succeed: \<open>assume_role\<close> is the SDK call whose failure the construction is specified
  for.
\<close>

definition open_session ::
  "sts \<Rightarrow> 'a awsclient_attrs_scheme \<Rightarrow> sdk_call list \<times> session result" where
  "open_session assume_role self =
     (if truthy (aws_creds self) then
        (let s = Session_kwargs (the (aws_creds self)) in ([Open_session s], Inr s))
      else if truthy (profile self) then
        (let s = Session_profile (the (profile self)) in ([Open_session s], Inr s))
      else
        (let ext = (if truthy (external_id self) then external_id self else None) in
         case assume_role (role_arn self) ext of
           Inl e \<Rightarrow> ([Sts_client, Assume_role (role_arn self) ext], Inl e)
         | Inr (key, secret, token) \<Rightarrow>
             (let s = Session_keys key secret token in
              ([Sts_client, Assume_role (role_arn self) ext, Open_session s], Inr s))))"

text \<open>
  The placebo block: attach the pill when a module and a non-empty directory were given,
  then \<open>record()\<close> or \<open>playback()\<close> by the mode.
\<close>

definition attach_placebo :: "'a awsclient_attrs_scheme \<Rightarrow> sdk_call list \<times> pill option" where
  "attach_placebo self =
     (if placebo self \<and> truthy (placebo_dir self) then
        (if placebo_mode self = ''record'' then
           ([Placebo_attach (the (placebo_dir self)), Pill_mode Pill_record], Some Pill_record)
         else if placebo_mode self = ''playback'' then
           ([Placebo_attach (the (placebo_dir self)), Pill_mode Pill_playback], Some Pill_playback)
         else ([Placebo_attach (the (placebo_dir self))], Some Pill_attached))
      else ([], None))"

definition create_client ::
  "sts \<Rightarrow> 'a awsclient_attrs_scheme \<Rightarrow> sdk_call list \<times> client result" where
  "create_client assume_role self =
     (case open_session assume_role self of
        (log, Inl e) \<Rightarrow> (log, Inl e)
      | (log, Inr s) \<Rightarrow>
          (let (plog, p) = attach_placebo self;
               region = (if truthy (region_name self) then region_name self else None)
           in (log @ plog @ [Session_client (service_name self) region],
               Inr \<lparr>cl_session = s, cl_pill = p, cl_service = service_name self,
                    cl_region = region, cl_connect_timeout = 5, cl_read_timeout = 60,
                    cl_max_attempts = 30, cl_retry_mode = ''standard''\<rparr>)))"

text \<open>
  \<open>__init__\<close> up to the call of \<open>_create_client\<close>: the attributes. \<open>get_config\<close> is the
  process-wide configuration (\<open>skew.config.get_config()\<close>), read only when no \<open>config\<close>
  keyword is given. \<open>self._config['accounts'][account_id]\<close> raises \<open>KeyError\<close> for an
  unknown account; it is evaluated only when no credentials were passed. The three
  \<open>case\<close>s are the tests \<open>'profile' in ...\<close>, \<open>elif 'role_arn' in ...\<close> and
  \<open>'external_id' in ...\<close>: a key that is present is copied with the value it holds, \<open>None\<close>
  included.
\<close>

definition init_attrs ::
  "config \<Rightarrow> string \<Rightarrow> string option \<Rightarrow> string \<Rightarrow> init_kwargs \<Rightarrow> awsclient_attrs result" where
  "init_attrs get_config service region acct_id kw =
     (let cfg = (case kw_config kw of Some c \<Rightarrow> c | None \<Rightarrow> get_config);
          self0 = \<lparr>self_config = cfg, service_name = service, region_name = region,
                   account_id = acct_id, has_credentials = False,
                   aws_creds = kw_aws_creds kw, profile = None, external_id = None,
                   role_arn = None, placebo = kw_placebo kw,
                   placebo_dir = kw_placebo_dir kw,
                   placebo_mode = (case kw_placebo_mode kw of None \<Rightarrow> ''record''
                                   | Some m \<Rightarrow> m)\<rparr>
      in if aws_creds self0 \<noteq> None then Inr self0
         else
           (case cfg acct_id of
              None \<Rightarrow> Inl (OtherException ''KeyError'')
            | Some acct \<Rightarrow>
                (let self1 = self0\<lparr>aws_creds := acct_credentials acct\<rparr>
                 in if aws_creds self1 = None then
                      (case acct_profile acct of
                         Some p \<Rightarrow> Inr (self1\<lparr>profile := p\<rparr>)
                       | None \<Rightarrow>
                           (case acct_role_arn acct of
                              Some r \<Rightarrow>
                                (let self2 = self1\<lparr>role_arn := r\<rparr>
                                 in case acct_external_id acct of
                                      Some x \<Rightarrow> Inr (self2\<lparr>external_id := x\<rparr>)
                                    | None \<Rightarrow> Inr self2)
                            | None \<Rightarrow> Inr self1))
                    else Inr self1)))"

text \<open>\<open>__init__\<close>: the attributes, then \<open>self._client = self._create_client()\<close>.\<close>

definition init ::
  "config \<Rightarrow> sts \<Rightarrow> string \<Rightarrow> string option \<Rightarrow> string \<Rightarrow> init_kwargs
     \<Rightarrow> sdk_call list \<times> awsclient result" where
  "init get_config assume_role service region acct_id kw =
     (case init_attrs get_config service region acct_id kw of
        Inl e \<Rightarrow> ([], Inl e)
      | Inr self \<Rightarrow>
          (case create_client assume_role self of
             (log, Inl e) \<Rightarrow> (log, Inl e)
           | (log, Inr c) \<Rightarrow> (log, Inr (awsclient_attrs.extend self \<lparr>self_client = c\<rparr>))))"

section \<open>\<open>AWSClient.call\<close>\<close>

text \<open>
  What \<open>call\<close> does to the outside world: it invokes the operation, sleeps, or runs a
  paginator. \<open>Slept n\<close> is \<open>time.sleep(n)\<close>.
\<close>

datatype event = Invoked | Slept nat | Paginated

text \<open>
  The service behind a client handle. \<open>operation name\<close> is \<open>getattr(client, name)\<close>
  (\<open>None\<close>: no such attribute); the method, given the keyword arguments, answers its
  \<open>n\<close>-th invocation within one \<open>call\<close> (counted from 0) with a value or an exception.
  \<open>build_full_result name kwargs\<close> is the outcome of
  \<open>get_paginator(name).paginate(**kwargs).build_full_result()\<close>, an exception when any of
  the three raises.
\<close>

record backend =
  can_paginate :: "string \<Rightarrow> bool"
  build_full_result :: "string \<Rightarrow> kwargs \<Rightarrow> pyval result"
  operation :: "string \<Rightarrow> (kwargs \<Rightarrow> nat \<Rightarrow> pyval outcome) option"

text \<open>
  jmespath: \<open>compile\<close> parses an expression (or raises), \<open>search\<close> runs a parsed
  expression on data (or raises).
\<close>

record 'q jmespath =
  compile :: "string \<Rightarrow> 'q result"
  search :: "'q \<Rightarrow> pyval \<Rightarrow> pyval result"

text \<open>The variables of the retry loop, with the attempts made and the events so far.\<close>

record loop_state =
  data :: pyval
  is_done :: bool
  attempts :: nat
  trace :: "event list"

text \<open>
  One iteration of \<open>while not done\<close>: the \<open>try\<close> with its two handlers.
  \<open>'Throttling' in str(e)\<close> is \<open>sublist ''Throttling'' e\<close>. The chain of \<open>elif\<close>s has no
  \<open>else\<close>: a \<open>ClientError\<close> that matches none of the four substrings leaves \<open>done\<close> as it
  is.
\<close>

definition attempt :: "(nat \<Rightarrow> pyval outcome) \<Rightarrow> loop_state \<Rightarrow> loop_state" where
  "attempt op st =
     (let st1 = st\<lparr>attempts := Suc (attempts st), trace := trace st @ [Invoked]\<rparr> in
      case op (attempts st) of
        Returns v \<Rightarrow> st1\<lparr>data := v, is_done := True\<rparr>
      | Raises (ClientError e) \<Rightarrow>
          if sublist ''Throttling'' e then st1\<lparr>trace := trace st1 @ [Slept 1]\<rparr>
          else if sublist ''AccessDenied'' e then st1\<lparr>is_done := True\<rparr>
          else if sublist ''NoSuchTagSet'' e then st1\<lparr>is_done := True\<rparr>
          else if sublist ''Topic does not exist'' e then st1\<lparr>is_done := True\<rparr>
          else st1
      | Raises (OtherException e) \<Rightarrow> st1\<lparr>is_done := True\<rparr>)"

text \<open>The loop may run forever: \<open>None\<close> is the loop that never leaves.\<close>

partial_function (option) retry_loop ::
  "(nat \<Rightarrow> pyval outcome) \<Rightarrow> loop_state \<Rightarrow> loop_state option" where
  "retry_loop op st = (if is_done st then Some st else retry_loop op (attempt op st))"

definition initial_state :: loop_state where
  "initial_state = \<lparr>data = PDict [], is_done = False, attempts = 0, trace = []\<rparr>"

text \<open>
  \<open>if query: query = jmespath.compile(query)\<close>: \<open>None\<close> and the empty string are falsy
  and stay uncompiled (\<open>Inr None\<close>).
\<close>

definition compile_query :: "'q jmespath \<Rightarrow> string option \<Rightarrow> 'q option result" where
  "compile_query J query =
     (if truthy query then
        (case compile J (the query) of Inl e \<Rightarrow> Inl e | Inr q \<Rightarrow> Inr (Some q))
      else Inr None)"

text \<open>\<open>if query: data = query.search(data)\<close>; a compiled query is truthy.\<close>

definition apply_query :: "'q jmespath \<Rightarrow> 'q option \<Rightarrow> pyval \<Rightarrow> pyval result" where
  "apply_query J q d = (case q of None \<Rightarrow> Inr d | Some c \<Rightarrow> search J c d)"

text \<open>
  \<open>call\<close>. \<open>service\<close> gives the behaviour of the service a client handle reaches. The result
  is \<open>None\<close> when the method never returns; otherwise the value returned or the exception
  raised, the object afterwards, and the events of the call in order.
\<close>

definition call ::
  "'q jmespath \<Rightarrow> (client \<Rightarrow> backend) \<Rightarrow> awsclient \<Rightarrow> string \<Rightarrow> string option \<Rightarrow> kwargs
     \<Rightarrow> (pyval result \<times> awsclient \<times> event list) option" where
  "call J service self op_name query kw =
     (case compile_query J query of
        Inl e \<Rightarrow> Some (Inl e, self, [])
      | Inr q \<Rightarrow>
          (let b = service (self_client self) in
           if can_paginate b op_name then
             (case build_full_result b op_name kw of
                Inl e \<Rightarrow> Some (Inl e, self, [Paginated])
              | Inr d \<Rightarrow> Some (apply_query J q d, self, [Paginated]))
           else
             (case operation b op_name of
                None \<Rightarrow> Some (Inl (OtherException ''AttributeError''), self, [])
              | Some op \<Rightarrow>
                  (case retry_loop (op kw) initial_state of
                     None \<Rightarrow> None
                   | Some st \<Rightarrow> Some (apply_query J q (data st), self, trace st)))))"

text \<open>\<open>get_awsclient\<close>: an empty region becomes \<open>None\<close>.\<close>

definition get_awsclient ::
  "config \<Rightarrow> sts \<Rightarrow> string \<Rightarrow> string option \<Rightarrow> string \<Rightarrow> init_kwargs
     \<Rightarrow> sdk_call list \<times> awsclient result" where
  "get_awsclient get_config assume_role service region acct_id kw =
     init get_config assume_role service (if region = Some [] then None else region) acct_id kw"

section \<open>Specification-side definitions\<close>

text \<open>
  The messages the specification calls ignorable: those that contain \<open>AccessDenied\<close>,
  \<open>NoSuchTagSet\<close> or \<open>Topic does not exist\<close>.
\<close>

definition ignorable :: "string \<Rightarrow> bool" where
  "ignorable msg \<longleftrightarrow>
     sublist ''AccessDenied'' msg \<or> sublist ''NoSuchTagSet'' msg
     \<or> sublist ''Topic does not exist'' msg"

text \<open>
  A query applied to data, as jmespath's own \<open>search(expression, data)\<close> does it: parse
  the expression, then run it.
\<close>

definition jmespath_search :: "'q jmespath \<Rightarrow> string \<Rightarrow> pyval \<Rightarrow> pyval result" where
  "jmespath_search J expression d =
     (case compile J expression of Inl e \<Rightarrow> Inl e | Inr c \<Rightarrow> search J c d)"








section \<open>Concrete inputs\<close>

text \<open>
  A service without paginators whose every operation answers its successive invocations
  with the listed outcomes and, once the list is used up, with \<open>then_on\<close>.
\<close>

definition script :: "pyval outcome list \<Rightarrow> pyval outcome \<Rightarrow> kwargs \<Rightarrow> nat \<Rightarrow> pyval outcome" where
  "script outcomes then_on kw n = (if n < length outcomes then outcomes ! n else then_on)"

definition scripted :: "pyval outcome list \<Rightarrow> pyval outcome \<Rightarrow> client \<Rightarrow> backend" where
  "scripted outcomes then_on c =
     \<lparr>can_paginate = (\<lambda>name. False),
      build_full_result = (\<lambda>name kw. Inl (OtherException ''OperationNotPageableError'')),
      operation = (\<lambda>name. Some (script outcomes then_on))\<rparr>"

text \<open>A service whose every operation is paginated, with a fixed outcome.\<close>

definition paginating :: "pyval result \<Rightarrow> client \<Rightarrow> backend" where
  "paginating full c =
     \<lparr>can_paginate = (\<lambda>name. True),
      build_full_result = (\<lambda>name kw. full),
      operation = (\<lambda>name. None)\<rparr>"

text \<open>
  A fragment of jmespath: an expression is an identifier, looked up in a dictionary
  (\<open>null\<close> when absent or when the data is no dictionary); an expression with a bracket
  does not parse.
\<close>

definition identifiers :: "string jmespath" where
  "identifiers =
     \<lparr>compile = (\<lambda>s. if CHR ''['' \<in> set s then Inl (OtherException ''ParseError'')
                      else Inr s),
      search = (\<lambda>q d. case d of
                  PDict kvs \<Rightarrow> (case map_of kvs q of Some v \<Rightarrow> Inr v | None \<Rightarrow> Inr PNone)
                | _ \<Rightarrow> Inr PNone)\<rparr>"

definition sample_client :: client where
  "sample_client =
     \<lparr>cl_session = Session_profile ''dev'', cl_pill = None, cl_service = ''sns'',
      cl_region = Some ''us-east-1'', cl_connect_timeout = 5, cl_read_timeout = 60,
      cl_max_attempts = 30, cl_retry_mode = ''standard''\<rparr>"

definition sample_self :: awsclient where
  "sample_self =
     \<lparr>self_config = Map.empty, service_name = ''sns'', region_name = Some ''us-east-1'',
      account_id = ''123456789012'', has_credentials = False, aws_creds = None,
      profile = Some ''dev'', external_id = None, role_arn = None, placebo = False,
      placebo_dir = None, placebo_mode = ''record'', self_client = sample_client\<rparr>"

definition throttled_msg :: string where
  "throttled_msg =
     ''An error occurred (Throttling) when calling the GetTopicAttributes operation: Rate exceeded''"

definition denied_msg :: string where
  "denied_msg =
     ''An error occurred (AccessDenied) when calling the GetTopicAttributes operation: no''"

definition validation_msg :: string where
  "validation_msg =
     ''An error occurred (ValidationError) when calling the GetTopicAttributes operation: bad''"

definition denied_throttling_msg :: string where
  "denied_throttling_msg =
     ''An error occurred (AccessDenied) when calling the GetThrottlingSettings operation: no''"

definition topic :: pyval where
  "topic = PDict [(''Attributes'', PDict [(''Owner'', PStr ''123456789012'')])]"

text \<open>
  An account with nothing configured, a configuration that holds it, and two security
  token services: one that validates its parameters as botocore does (\<open>RoleArn\<close> must be a
  string), one that grants every request.
\<close>

definition bare_account :: account where
  "bare_account =
     \<lparr>acct_credentials = None, acct_profile = None, acct_role_arn = None,
      acct_external_id = None\<rparr>"

definition bare_config :: config where
  "bare_config = [''123456789012'' \<mapsto> bare_account]"







definition no_kwargs :: init_kwargs where
  "no_kwargs =
     \<lparr>kw_config = None, kw_aws_creds = None, kw_placebo = False, kw_placebo_dir = None,
      kw_placebo_mode = None\<rparr>"

definition validating_sts :: sts where
  "validating_sts arn ext =
     (case arn of
        None \<Rightarrow> Inl (OtherException ''ParamValidationError'')
      | Some a \<Rightarrow> Inr (''ASIAEXAMPLE'', ''secret'', ''token''))"

definition granting_sts :: sts where
  "granting_sts arn ext = Inr (''ASIAEXAMPLE'', ''secret'', ''token'')"

definition sample_datetime :: datetime where
  "sample_datetime =
     \<lparr>year = 2015, month = 3, day = 14, hour = 9, minute = 26, second = 53,
      microsecond = 0\<rparr>"

definition sample_isoformat :: "datetime \<Rightarrow> string" where
  "sample_isoformat d = (if d = sample_datetime then ''2015-03-14T09:26:53'' else [])"

section \<open>The retry loop\<close>

text \<open>What one iteration does, by the outcome of the invocation.\<close>

lemma attempt_throttled:
  assumes "op (attempts st) = Raises (ClientError msg)" and "sublist ''Throttling'' msg"
  shows "attempt op st =
         st\<lparr>attempts := Suc (attempts st), trace := trace st @ [Invoked, Slept 1]\<rparr>"
  using assms by (simp add: attempt_def)

lemma attempt_returns:
  assumes "op (attempts st) = Returns d"
  shows "attempt op st =
         st\<lparr>attempts := Suc (attempts st), trace := trace st @ [Invoked], data := d,
             is_done := True\<rparr>"
  using assms by (simp add: attempt_def)

lemma attempt_ignorable:
  assumes "op (attempts st) = Raises (ClientError msg)" and "\<not> sublist ''Throttling'' msg"
    and "ignorable msg"
  shows "attempt op st =
         st\<lparr>attempts := Suc (attempts st), trace := trace st @ [Invoked], is_done := True\<rparr>"
  using assms by (auto simp add: attempt_def ignorable_def Let_def)

lemma attempt_other_exception:
  assumes "op (attempts st) = Raises (OtherException name)"
  shows "attempt op st =
         st\<lparr>attempts := Suc (attempts st), trace := trace st @ [Invoked], is_done := True\<rparr>"
  using assms by (simp add: attempt_def)

lemma attempt_unmatched:
  assumes "op (attempts st) = Raises (ClientError msg)" and "\<not> sublist ''Throttling'' msg"
    and "\<not> ignorable msg"
  shows "attempt op st = st\<lparr>attempts := Suc (attempts st), trace := trace st @ [Invoked]\<rparr>"
  using assms by (simp add: attempt_def ignorable_def)

lemma retry_loop_done: "is_done st \<Longrightarrow> retry_loop op st = Some st"
  by (subst retry_loop.simps) simp

lemma retry_loop_step: "\<not> is_done st \<Longrightarrow> retry_loop op st = retry_loop op (attempt op st)"
  by (subst retry_loop.simps) simp

lemma retry_loop_throttled:
  assumes "\<not> is_done st"
    and "\<forall>i<n. \<exists>msg. op (attempts st + i) = Raises (ClientError msg) \<and> sublist ''Throttling'' msg"
  shows "retry_loop op st =
         retry_loop op (st\<lparr>attempts := attempts st + n,
                            trace := trace st @ concat (replicate n [Invoked, Slept 1])\<rparr>)"
  using assms
proof (induction n arbitrary: st)
  case 0
  then show ?case by simp
next
  case (Suc n)
  from Suc.prems(2) obtain msg where m: "op (attempts st) = Raises (ClientError msg)"
    "sublist ''Throttling'' msg" by force
  let ?st = "st\<lparr>attempts := Suc (attempts st), trace := trace st @ [Invoked, Slept 1]\<rparr>"
  have a: "attempt op st = ?st" using m by (rule attempt_throttled)
  have nd: "\<not> is_done ?st" using Suc.prems(1) by simp
  have later: "\<forall>i<n. \<exists>msg. op (attempts ?st + i) = Raises (ClientError msg)
                 \<and> sublist ''Throttling'' msg"
  proof (intro allI impI)
    fix i assume "i < n"
    then have "Suc i < Suc n" by simp
    with Suc.prems(2) have "\<exists>msg. op (attempts st + Suc i) = Raises (ClientError msg)
        \<and> sublist ''Throttling'' msg"
      by blast
    then show "\<exists>msg. op (attempts ?st + i) = Raises (ClientError msg)
        \<and> sublist ''Throttling'' msg"
      by simp
  qed
  have "retry_loop op st = retry_loop op ?st"
    using Suc.prems(1) a by (simp add: retry_loop_step)
  also have "\<dots> = retry_loop op (?st\<lparr>attempts := attempts ?st + n,
                            trace := trace ?st @ concat (replicate n [Invoked, Slept 1])\<rparr>)"
    using Suc.IH[OF nd later] .
  finally show ?case by simp
qed

lemma retry_loop_never_done:
  assumes stuck: "\<And>s. \<not> is_done s \<Longrightarrow> \<not> is_done (attempt op s)" and nd: "\<not> is_done st"
  shows "retry_loop op st = None"
proof (rule ccontr)
  assume "retry_loop op st \<noteq> None"
  then obtain y where y: "retry_loop op st = Some y" by auto
  have "(\<forall>s. \<not> is_done s \<longrightarrow> \<not> is_done (attempt op s)) \<longrightarrow> is_done st"
  proof (rule retry_loop.raw_induct
      [where P = "\<lambda>f s r. (\<forall>s'. \<not> is_done s' \<longrightarrow> \<not> is_done (attempt f s')) \<longrightarrow> is_done s",
        OF _ y])
    fix loop f s r
    assume IH: "\<And>f' s' r'. loop f' s' = Some r' \<Longrightarrow>
        (\<forall>s''. \<not> is_done s'' \<longrightarrow> \<not> is_done (attempt f' s'')) \<longrightarrow> is_done s'"
      and body: "(if is_done s then Some s else loop f (attempt f s)) = Some r"
    show "(\<forall>s'. \<not> is_done s' \<longrightarrow> \<not> is_done (attempt f s')) \<longrightarrow> is_done s"
    proof (cases "is_done s")
      case True
      then show ?thesis by simp
    next
      case False
      with body have "loop f (attempt f s) = Some r" by simp
      from IH[OF this] False show ?thesis by blast
    qed
  qed
  with stuck nd show False by blast
qed

lemma sleeps_of_trace:
  "[e \<leftarrow> concat (replicate n [Invoked, Slept 1]) @ [Invoked]. e \<noteq> Invoked] = replicate n (Slept 1)"
  by (induction n) simp_all

lemma loop_after_throttling:
  assumes thr: "\<forall>i<n. \<exists>msg. op i = Raises (ClientError msg) \<and> sublist ''Throttling'' msg"
  shows "retry_loop op initial_state =
         retry_loop op \<lparr>data = PDict [], is_done = False, attempts = n,
                         trace = concat (replicate n [Invoked, Slept 1])\<rparr>"
proof -
  have "retry_loop op initial_state =
        retry_loop op (initial_state\<lparr>attempts := attempts initial_state + n,
             trace := trace initial_state @ concat (replicate n [Invoked, Slept 1])\<rparr>)"
    by (rule retry_loop_throttled) (use thr in \<open>simp_all add: initial_state_def\<close>)
  then show ?thesis by (simp add: initial_state_def)
qed

text \<open>
  C4. A non-paginated operation whose first \<open>n\<close> invocations raise a \<open>ClientError\<close> with
  \<open>Throttling\<close> in its message and whose next invocation returns \<open>d\<close>: \<open>call\<close> returns
  \<open>d\<close> (passed through the query when one is given and compiles), and the events of the
  call are \<open>n\<close> times an invocation followed by a sleep of one second, then the
  successful invocation: exactly \<open>n\<close> sleeps, each between a failed attempt and the
  retry.
\<close>

theorem throttling_then_success:
  assumes np: "\<not> can_paginate (service (self_client self)) op_name"
    and op: "operation (service (self_client self)) op_name = Some op"
    and thr: "\<forall>i<n. \<exists>msg. op kw i = Raises (ClientError msg) \<and> sublist ''Throttling'' msg"
    and ok: "op kw n = Returns d"
    and q: "compile_query J query = Inr q"
  shows "call J service self op_name query kw =
           Some (apply_query J q d, self, concat (replicate n [Invoked, Slept 1]) @ [Invoked])
         \<and> call J service self op_name None kw =
           Some (Inr d, self, concat (replicate n [Invoked, Slept 1]) @ [Invoked])
         \<and> [e \<leftarrow> concat (replicate n [Invoked, Slept 1]) @ [Invoked]. e \<noteq> Invoked]
             = replicate n (Slept 1)"
proof -
  let ?st = "\<lparr>data = PDict [], is_done = False, attempts = n,
              trace = concat (replicate n [Invoked, Slept 1])\<rparr>"
  have "retry_loop (op kw) initial_state = retry_loop (op kw) ?st"
    using thr by (rule loop_after_throttling)
  also have "\<dots> = retry_loop (op kw) (attempt (op kw) ?st)"
    by (simp add: retry_loop_step)
  also have "attempt (op kw) ?st =
      \<lparr>data = d, is_done = True, attempts = Suc n,
       trace = concat (replicate n [Invoked, Slept 1]) @ [Invoked]\<rparr>"
    using ok by (simp add: attempt_returns)
  also have "retry_loop (op kw) \<dots> = Some \<dots>"
    by (simp add: retry_loop_done)
  finally have loop: "retry_loop (op kw) initial_state =
      Some \<lparr>data = d, is_done = True, attempts = Suc n,
            trace = concat (replicate n [Invoked, Slept 1]) @ [Invoked]\<rparr>" .
  have 1: "call J service self op_name query kw =
           Some (apply_query J q d, self, concat (replicate n [Invoked, Slept 1]) @ [Invoked])"
    using np op q loop by (simp add: call_def)
  have 2: "call J service self op_name None kw =
           Some (Inr d, self, concat (replicate n [Invoked, Slept 1]) @ [Invoked])"
    using np op loop by (simp add: call_def compile_query_def apply_query_def)
  show ?thesis using 1 2 sleeps_of_trace by blast
qed

theorem throttling_then_success_witness:
  "call identifiers
     (scripted [Raises (ClientError throttled_msg), Raises (ClientError throttled_msg)]
        (Returns topic))
     sample_self ''get_topic_attributes'' (Some ''Attributes'') [] =
   Some (Inr (PDict [(''Owner'', PStr ''123456789012'')]), sample_self,
         [Invoked, Slept 1, Invoked, Slept 1, Invoked])
   \<and> call identifiers
     (scripted [Raises (ClientError throttled_msg), Raises (ClientError throttled_msg)]
        (Returns topic))
     sample_self ''get_topic_attributes'' None [] =
   Some (Inr topic, sample_self, [Invoked, Slept 1, Invoked, Slept 1, Invoked])"
proof -
  let ?svc = "scripted [Raises (ClientError throttled_msg), Raises (ClientError throttled_msg)]
        (Returns topic)"
  let ?op = "script [Raises (ClientError throttled_msg), Raises (ClientError throttled_msg)]
        (Returns topic)"
  have np: "\<not> can_paginate (?svc (self_client sample_self)) ''get_topic_attributes''"
    by (simp add: scripted_def)
  have op: "operation (?svc (self_client sample_self)) ''get_topic_attributes'' = Some ?op"
    by (simp add: scripted_def)
  have thr: "\<forall>i<2. \<exists>msg. ?op [] i = Raises (ClientError msg) \<and> sublist ''Throttling'' msg"
    by (simp add: script_def less_Suc_eq numeral_2_eq_2 throttled_msg_def sublist_Cons_right
        all_conj_distrib)
  have ok: "?op [] 2 = Returns topic" by (simp add: script_def)
  have q: "compile_query identifiers (Some ''Attributes'') = Inr (Some ''Attributes'')"
    by (simp add: compile_query_def identifiers_def)
  from throttling_then_success [where service = ?svc and self = sample_self
      and op_name = "''get_topic_attributes''" and kw = "[]" and n = 2 and J = identifiers,
      OF np op thr ok q]
  show ?thesis
    by (simp add: apply_query_def identifiers_def topic_def numeral_2_eq_2)
qed

section \<open>Error handling of the non-paginated path\<close>

text \<open>
  A loop that is throttled \<open>n\<close> times and whose next attempt sets \<open>done\<close> ends there.
\<close>

lemma loop_ends_with:
  assumes thr: "\<forall>i<n. \<exists>msg. op i = Raises (ClientError msg) \<and> sublist ''Throttling'' msg"
    and last: "attempt op \<lparr>data = PDict [], is_done = False, attempts = n,
                 trace = concat (replicate n [Invoked, Slept 1])\<rparr> = st"
    and fin: "is_done st"
  shows "retry_loop op initial_state = Some st"
proof -
  let ?st = "\<lparr>data = PDict [], is_done = False, attempts = n,
              trace = concat (replicate n [Invoked, Slept 1])\<rparr>"
  have "retry_loop op initial_state = retry_loop op ?st"
    using thr by (rule loop_after_throttling)
  also have "\<dots> = retry_loop op (attempt op ?st)"
    by (simp add: retry_loop_step)
  also have "\<dots> = Some st"
    using last fin by (simp add: retry_loop_done)
  finally show ?thesis .
qed

text \<open>
  An exception that is no \<open>ClientError\<close> ends the loop: \<open>call\<close> returns the empty
  dictionary and raises nothing.
\<close>

lemma other_exception_swallowed:
  assumes np: "\<not> can_paginate (service (self_client self)) op_name"
    and op: "operation (service (self_client self)) op_name = Some op"
    and thr: "\<forall>i<n. \<exists>msg. op kw i = Raises (ClientError msg) \<and> sublist ''Throttling'' msg"
    and exn: "op kw n = Raises (OtherException name)"
  shows "call J service self op_name None kw =
           Some (Inr (PDict []), self, concat (replicate n [Invoked, Slept 1]) @ [Invoked])"
proof -
  have "retry_loop (op kw) initial_state =
        Some \<lparr>data = PDict [], is_done = True, attempts = Suc n,
              trace = concat (replicate n [Invoked, Slept 1]) @ [Invoked]\<rparr>"
    using thr by (rule loop_ends_with) (simp_all add: attempt_other_exception exn)
  then show ?thesis
    using np op by (simp add: call_def compile_query_def apply_query_def)
qed

text \<open>
  C6, as amended. A \<open>ClientError\<close> whose message contains \<open>AccessDenied\<close>,
  \<open>NoSuchTagSet\<close> or \<open>Topic does not exist\<close> and does not contain \<open>Throttling\<close> ends the
  loop, on the first attempt or after throttled ones: \<open>call\<close> returns the empty
  dictionary, passed through the query when one is given, and raises nothing of the
  error.
\<close>

theorem ignorable_error_swallowed:
  assumes np: "\<not> can_paginate (service (self_client self)) op_name"
    and op: "operation (service (self_client self)) op_name = Some op"
    and thr: "\<forall>i<n. \<exists>msg. op kw i = Raises (ClientError msg) \<and> sublist ''Throttling'' msg"
    and err: "op kw n = Raises (ClientError msg)"
    and ign: "ignorable msg"
    and nothr: "\<not> sublist ''Throttling'' msg"
    and q: "compile_query J query = Inr q"
  shows "call J service self op_name query kw =
           Some (apply_query J q (PDict []), self,
                 concat (replicate n [Invoked, Slept 1]) @ [Invoked])
         \<and> call J service self op_name None kw =
           Some (Inr (PDict []), self, concat (replicate n [Invoked, Slept 1]) @ [Invoked])"
proof -
  have loop: "retry_loop (op kw) initial_state =
        Some \<lparr>data = PDict [], is_done = True, attempts = Suc n,
              trace = concat (replicate n [Invoked, Slept 1]) @ [Invoked]\<rparr>"
    using thr by (rule loop_ends_with) (simp_all add: attempt_ignorable [OF _ nothr ign] err)
  have 1: "call J service self op_name query kw =
           Some (apply_query J q (PDict []), self,
                 concat (replicate n [Invoked, Slept 1]) @ [Invoked])"
    using np op q loop by (simp add: call_def)
  have 2: "call J service self op_name None kw =
           Some (Inr (PDict []), self, concat (replicate n [Invoked, Slept 1]) @ [Invoked])"
    using np op loop by (simp add: call_def compile_query_def apply_query_def)
  from 1 2 show ?thesis by blast
qed

theorem ignorable_error_swallowed_witness:
  "call identifiers (scripted [] (Raises (ClientError denied_msg))) sample_self
     ''get_topic_attributes'' (Some ''Attributes'') [] = Some (Inr PNone, sample_self, [Invoked])
   \<and> call identifiers (scripted [] (Raises (ClientError denied_msg))) sample_self
     ''get_topic_attributes'' None [] = Some (Inr (PDict []), sample_self, [Invoked])"
proof -
  let ?svc = "scripted [] (Raises (ClientError denied_msg))"
  let ?op = "script [] (Raises (ClientError denied_msg))"
  have np: "\<not> can_paginate (?svc (self_client sample_self)) ''get_topic_attributes''"
    by (simp add: scripted_def)
  have op: "operation (?svc (self_client sample_self)) ''get_topic_attributes'' = Some ?op"
    by (simp add: scripted_def)
  have thr: "\<forall>i<0. \<exists>msg. ?op [] i = Raises (ClientError msg) \<and> sublist ''Throttling'' msg"
    by simp
  have err: "?op [] 0 = Raises (ClientError denied_msg)" by (simp add: script_def)
  have ign: "ignorable denied_msg"
    by (simp add: ignorable_def denied_msg_def sublist_Cons_right)
  have nothr: "\<not> sublist ''Throttling'' denied_msg"
    by (simp add: denied_msg_def sublist_Cons_right)
  have q: "compile_query identifiers (Some ''Attributes'') = Inr (Some ''Attributes'')"
    by (simp add: compile_query_def identifiers_def)
  from ignorable_error_swallowed [where service = ?svc and self = sample_self
      and op_name = "''get_topic_attributes''" and kw = "[]" and n = 0 and J = identifiers,
      OF np op thr err ign nothr q]
  show ?thesis by (simp add: apply_query_def identifiers_def)
qed

text \<open>
  C6 as stated fails on a message that contains \<open>AccessDenied\<close> and \<open>Throttling\<close>: the
  call sleeps and retries, and returns what the retry returns; when the error persists,
  it never returns.
\<close>

theorem ignorable_error_counterexample:
  "sublist ''AccessDenied'' denied_throttling_msg
   \<and> call identifiers (scripted [Raises (ClientError denied_throttling_msg)] (Returns topic))
       sample_self ''get_topic_attributes'' None [] =
     Some (Inr topic, sample_self, [Invoked, Slept 1, Invoked])
   \<and> call identifiers (scripted [] (Raises (ClientError denied_throttling_msg)))
       sample_self ''get_topic_attributes'' None [] = None"
proof -
  have a: "sublist ''AccessDenied'' denied_throttling_msg"
    by (simp add: denied_throttling_msg_def sublist_Cons_right)
  have thr: "sublist ''Throttling'' denied_throttling_msg"
    by (simp add: denied_throttling_msg_def sublist_Cons_right)
  have b: "call identifiers (scripted [Raises (ClientError denied_throttling_msg)] (Returns topic))
       sample_self ''get_topic_attributes'' None [] =
     Some (Inr topic, sample_self, [Invoked, Slept 1, Invoked])"
    using thr by (simp add: call_def compile_query_def apply_query_def scripted_def script_def
        initial_state_def retry_loop.simps attempt_def)
  have stuck: "\<And>s. \<not> is_done s \<Longrightarrow>
      \<not> is_done (attempt (script [] (Raises (ClientError denied_throttling_msg)) []) s)"
    using thr by (simp add: attempt_def script_def)
  have "retry_loop (script [] (Raises (ClientError denied_throttling_msg)) []) initial_state
      = None"
    by (rule retry_loop_never_done [OF stuck]) (simp_all add: initial_state_def)
  then have c: "call identifiers (scripted [] (Raises (ClientError denied_throttling_msg)))
       sample_self ''get_topic_attributes'' None [] = None"
    by (simp add: call_def compile_query_def scripted_def)
  from a b c show ?thesis by blast
qed

text \<open>
  C1. A \<open>ClientError\<close> whose message matches none of the four substrings falls through
  the \<open>elif\<close> chain: \<open>done\<close> stays false, nothing sleeps, and the loop invokes the operation
  again at once. When the error persists \<open>call\<close> never returns; when the next invocation
  succeeds \<open>call\<close> returns that result, not the empty one.
\<close>

theorem unmatched_client_error_retries:
  "\<not> sublist ''Throttling'' validation_msg \<and> \<not> ignorable validation_msg
   \<and> call identifiers (scripted [] (Raises (ClientError validation_msg)))
       sample_self ''get_topic_attributes'' None [] = None
   \<and> call identifiers (scripted [Raises (ClientError validation_msg)] (Returns topic))
       sample_self ''get_topic_attributes'' None [] =
     Some (Inr topic, sample_self, [Invoked, Invoked])"
proof -
  have nothr: "\<not> sublist ''Throttling'' validation_msg"
    by (simp add: validation_msg_def sublist_Cons_right)
  have noign: "\<not> ignorable validation_msg"
    by (simp add: ignorable_def validation_msg_def sublist_Cons_right)
  have stuck: "\<And>s. \<not> is_done s \<Longrightarrow>
      \<not> is_done (attempt (script [] (Raises (ClientError validation_msg)) []) s)"
    using nothr noign by (simp add: attempt_unmatched script_def)
  have "retry_loop (script [] (Raises (ClientError validation_msg)) []) initial_state = None"
    by (rule retry_loop_never_done [OF stuck]) (simp_all add: initial_state_def)
  then have c: "call identifiers (scripted [] (Raises (ClientError validation_msg)))
       sample_self ''get_topic_attributes'' None [] = None"
    by (simp add: call_def compile_query_def scripted_def)
  have d: "call identifiers (scripted [Raises (ClientError validation_msg)] (Returns topic))
       sample_self ''get_topic_attributes'' None [] =
     Some (Inr topic, sample_self, [Invoked, Invoked])"
    using nothr noign
    by (simp add: call_def compile_query_def apply_query_def scripted_def script_def
        initial_state_def retry_loop.simps attempt_def ignorable_def)
  from nothr noign c d show ?thesis by blast
qed

section \<open>Pagination and queries\<close>

text \<open>
  C7. For an operation the client reports as paginatable, \<open>call\<close> returns what the
  paginator's \<open>build_full_result\<close> gives, the aggregate of all pages, and a failure of the
  pagination is raised to the caller as it is, with no data. The retry loop is not
  entered: the only event is the pagination. A query, when one is given and compiles, is
  applied to the aggregate.
\<close>

theorem paginated_path:
  assumes "can_paginate (service (self_client self)) op_name"
  shows "call J service self op_name None kw =
           Some (build_full_result (service (self_client self)) op_name kw, self, [Paginated])
         \<and> (compile_query J query = Inr q \<longrightarrow>
              call J service self op_name query kw =
                Some (case build_full_result (service (self_client self)) op_name kw of
                        Inl e \<Rightarrow> Inl e
                      | Inr d \<Rightarrow> apply_query J q d, self, [Paginated]))"
  using assms
  by (simp add: call_def compile_query_def apply_query_def Let_def split: sum.splits)

theorem paginated_path_witness:
  "call identifiers (paginating (Inr topic)) sample_self ''list_topics'' None [] =
     Some (Inr topic, sample_self, [Paginated])
   \<and> call identifiers (paginating (Inl (ClientError denied_msg))) sample_self ''list_topics''
       None [] = Some (Inl (ClientError denied_msg), sample_self, [Paginated])"
proof -
  have a: "can_paginate (paginating (Inr topic) (self_client sample_self)) ''list_topics''"
    by (simp add: paginating_def)
  have b: "can_paginate (paginating (Inl (ClientError denied_msg)) (self_client sample_self))
      ''list_topics''"
    by (simp add: paginating_def)
  from paginated_path [where service = "paginating (Inr topic)" and self = sample_self
      and op_name = "''list_topics''" and J = identifiers and kw = "[]", OF a]
    paginated_path [where service = "paginating (Inl (ClientError denied_msg))"
      and self = sample_self and op_name = "''list_topics''" and J = identifiers
      and kw = "[]", OF b]
  show ?thesis by (simp add: paginating_def)
qed

text \<open>
  C5. When \<open>call\<close> without a query returns the data \<open>d\<close>, \<open>call\<close> with a (non-empty) query
  expression on the same service returns the query applied to \<open>d\<close>, with the same object
  and the same events when the expression parses; \<open>d\<close> itself is the paginator's aggregate
  on the paginated path and the data of the finished retry loop on the other, unchanged.
  An empty expression counts as no query.
\<close>

theorem query_is_post_processing:
  assumes raw: "call J service self op_name None kw = Some (Inr d, self', events)"
    and nonempty: "expression \<noteq> []"
  shows "map_option fst (call J service self op_name (Some expression) kw) =
           Some (jmespath_search J expression d)
         \<and> (\<forall>c. compile J expression = Inr c \<longrightarrow>
              call J service self op_name (Some expression) kw =
                Some (search J c d, self', events))
         \<and> call J service self op_name (Some []) kw = call J service self op_name None kw
         \<and> (if can_paginate (service (self_client self)) op_name
            then build_full_result (service (self_client self)) op_name kw = Inr d
            else \<exists>op st. operation (service (self_client self)) op_name = Some op
                   \<and> retry_loop (op kw) initial_state = Some st \<and> data st = d)"
proof (cases "can_paginate (service (self_client self)) op_name")
  case True
  with raw have full: "build_full_result (service (self_client self)) op_name kw = Inr d"
    and same: "self' = self" "events = [Paginated]"
    by (auto simp add: call_def compile_query_def apply_query_def split: sum.splits)
  show ?thesis
    using True full same nonempty
    by (simp add: call_def compile_query_def apply_query_def jmespath_search_def
        split: sum.splits)
next
  case False
  with raw obtain op st where op: "operation (service (self_client self)) op_name = Some op"
    and loop: "retry_loop (op kw) initial_state = Some st"
    and d: "data st = d" and same: "self' = self" "events = trace st"
    by (auto simp add: call_def compile_query_def apply_query_def split: option.splits)
  show ?thesis
    using False op loop d same nonempty
    by (simp add: call_def compile_query_def apply_query_def jmespath_search_def
        split: sum.splits)
qed

theorem query_is_post_processing_witness:
  "call identifiers (scripted [Raises (ClientError throttled_msg)] (Returns topic)) sample_self
     ''get_topic_attributes'' (Some ''Attributes'') [] =
   Some (Inr (PDict [(''Owner'', PStr ''123456789012'')]), sample_self,
         [Invoked, Slept 1, Invoked])
   \<and> map_option fst
       (call identifiers (scripted [Raises (ClientError throttled_msg)] (Returns topic))
          sample_self ''get_topic_attributes'' (Some ''Attributes['') []) =
     Some (Inl (OtherException ''ParseError''))"
proof -
  let ?svc = "scripted [Raises (ClientError throttled_msg)] (Returns topic)"
  have thr: "sublist ''Throttling'' throttled_msg"
    by (simp add: throttled_msg_def sublist_Cons_right)
  have raw: "call identifiers ?svc sample_self ''get_topic_attributes'' None [] =
      Some (Inr topic, sample_self, [Invoked, Slept 1, Invoked])"
    using thr by (simp add: call_def compile_query_def apply_query_def scripted_def script_def
        initial_state_def retry_loop.simps attempt_def)
  have c: "compile identifiers ''Attributes'' = Inr ''Attributes''"
    by (simp add: identifiers_def)
  have 1: "call identifiers ?svc sample_self ''get_topic_attributes'' (Some ''Attributes'') [] =
      Some (search identifiers ''Attributes'' topic, sample_self, [Invoked, Slept 1, Invoked])"
    using query_is_post_processing [OF raw, of "''Attributes''"] c by simp
  have 2: "map_option fst (call identifiers ?svc sample_self ''get_topic_attributes''
      (Some ''Attributes['') []) = Some (jmespath_search identifiers ''Attributes['' topic)"
    using query_is_post_processing [OF raw, of "''Attributes[''"] by simp
  from 1 2 show ?thesis
    by (simp add: identifiers_def topic_def jmespath_search_def)
qed

section \<open>The object and the encoder\<close>

text \<open>
  C10. \<open>call\<close> leaves the object as the constructor made it: whenever it returns or raises,
  the object afterwards is the object before, so each property and the client handle have
  the values they had.
\<close>

theorem call_preserves_object:
  assumes "call J service self op_name query kw = Some (r, self', events)"
  shows "self' = self
         \<and> service_name self' = service_name self \<and> region_name self' = region_name self
         \<and> account_id self' = account_id self \<and> profile self' = profile self
         \<and> external_id self' = external_id self \<and> role_arn self' = role_arn self
         \<and> self_client self' = self_client self"
proof -
  have "self' = self"
    using assms by (auto simp add: call_def Let_def split: sum.splits option.splits if_splits)
  then show ?thesis by simp
qed

theorem call_preserves_object_witness:
  "call identifiers (scripted [] (Raises (ClientError denied_msg))) sample_self
     ''get_topic_attributes'' None [] = Some (Inr (PDict []), sample_self, [Invoked])
   \<and> profile sample_self = Some ''dev'' \<and> self_client sample_self = sample_client"
proof -
  have ign: "sublist ''AccessDenied'' denied_msg"
    by (simp add: denied_msg_def sublist_Cons_right)
  have nothr: "\<not> sublist ''Throttling'' denied_msg"
    by (simp add: denied_msg_def sublist_Cons_right)
  have c: "call identifiers (scripted [] (Raises (ClientError denied_msg))) sample_self
     ''get_topic_attributes'' None [] = Some (Inr (PDict []), sample_self, [Invoked])"
    using ign nothr
    by (simp add: call_def compile_query_def apply_query_def scripted_def script_def
        initial_state_def retry_loop.simps attempt_def)
  from call_preserves_object [OF c] c show ?thesis by (simp add: sample_self_def)
qed

text \<open>
  C8. \<open>json_encoder\<close> turns a datetime into the string its \<open>isoformat\<close> gives and returns
  every other value as it is.
\<close>

theorem json_encoder_datetime_or_identity:
  "json_encoder isoformat (PDatetime d) = PStr (isoformat d)
   \<and> (\<not> isinstance_datetime obj \<longrightarrow> json_encoder isoformat obj = obj)"
  by (cases obj) simp_all

theorem json_encoder_datetime_or_identity_witness:
  "json_encoder sample_isoformat (PDatetime sample_datetime) = PStr ''2015-03-14T09:26:53''
   \<and> json_encoder sample_isoformat (PList [PDatetime sample_datetime, PInt 3])
       = PList [PDatetime sample_datetime, PInt 3]"
  using json_encoder_datetime_or_identity
    [of sample_isoformat sample_datetime "PList [PDatetime sample_datetime, PInt 3]"]
  by (simp add: sample_isoformat_def)

section \<open>Precedence of the throttling test\<close>

text \<open>Every iteration invokes the operation, and a loop that ends ends where it is done.\<close>

lemma attempt_trace: "\<exists>x. trace (attempt op st) = trace st @ Invoked # x"
  by (cases "op (attempts st)")
     (auto simp add: attempt_def Let_def split: exn.splits)

lemma retry_loop_trace:
  assumes "retry_loop op st = Some st'"
  shows "(is_done st \<longrightarrow> st' = st)
         \<and> (\<not> is_done st \<longrightarrow> (\<exists>rest. trace st' = trace st @ Invoked # rest))"
proof (rule retry_loop.raw_induct
    [where P = "\<lambda>f s r. (is_done s \<longrightarrow> r = s)
                  \<and> (\<not> is_done s \<longrightarrow> (\<exists>rest. trace r = trace s @ Invoked # rest))",
      OF _ assms])
  fix loop f s r
  assume IH: "\<And>f' s' r'. loop f' s' = Some r' \<Longrightarrow>
      (is_done s' \<longrightarrow> r' = s')
      \<and> (\<not> is_done s' \<longrightarrow> (\<exists>rest. trace r' = trace s' @ Invoked # rest))"
    and body: "(if is_done s then Some s else loop f (attempt f s)) = Some r"
  show "(is_done s \<longrightarrow> r = s)
        \<and> (\<not> is_done s \<longrightarrow> (\<exists>rest. trace r = trace s @ Invoked # rest))"
  proof (cases "is_done s")
    case True
    with body show ?thesis by simp
  next
    case False
    with body have next_loop: "loop f (attempt f s) = Some r" by simp
    obtain x where x: "trace (attempt f s) = trace s @ Invoked # x"
      using attempt_trace by blast
    have "\<exists>rest. trace r = trace s @ Invoked # rest"
    proof (cases "is_done (attempt f s)")
      case True
      with IH [OF next_loop] have "r = attempt f s" by simp
      with x show ?thesis by simp
    next
      case False
      with IH [OF next_loop] obtain rest where
        "trace r = trace (attempt f s) @ Invoked # rest" by blast
      with x show ?thesis by simp
    qed
    with False show ?thesis by simp
  qed
qed

text \<open>
  C9. On the non-paginated path, let an invocation (the first, or one after throttled
  attempts) raise a \<open>ClientError\<close> whose message contains \<open>Throttling\<close> and one of the
  ignorable substrings. Then \<open>call\<close> does not end with that error: whenever it returns,
  its events go on after that invocation with a sleep of one second and a further
  invocation; it does not return the empty result at that point; and when the further
  invocation returns \<open>d\<close>, \<open>call\<close> returns \<open>d\<close> (passed through the query).
\<close>

theorem throttling_precedence:
  assumes np: "\<not> can_paginate (service (self_client self)) op_name"
    and op: "operation (service (self_client self)) op_name = Some op"
    and thr: "\<forall>i<n. \<exists>m. op kw i = Raises (ClientError m) \<and> sublist ''Throttling'' m"
    and err: "op kw n = Raises (ClientError msg)"
    and both: "sublist ''Throttling'' msg" "ignorable msg"
    and q: "compile_query J query = Inr q"
  shows "(\<forall>r self' events. call J service self op_name query kw = Some (r, self', events) \<longrightarrow>
            (\<exists>rest. events =
               concat (replicate n [Invoked, Slept 1]) @ [Invoked, Slept 1, Invoked] @ rest))
         \<and> call J service self op_name query kw \<noteq>
             Some (apply_query J q (PDict []), self,
                   concat (replicate n [Invoked, Slept 1]) @ [Invoked])
         \<and> (\<forall>d. op kw (Suc n) = Returns d \<longrightarrow>
              call J service self op_name query kw =
                Some (apply_query J q d, self,
                      concat (replicate n [Invoked, Slept 1]) @ [Invoked, Slept 1, Invoked]))"
proof -
  let ?st = "\<lparr>data = PDict [], is_done = False, attempts = Suc n,
              trace = concat (replicate n [Invoked, Slept 1]) @ [Invoked, Slept 1]\<rparr>"
  have tr: "concat (replicate (Suc n) [Invoked, Slept 1]) =
            concat (replicate n [Invoked, Slept 1]) @ [Invoked, Slept 1]"
    by (induction n) simp_all
  have thr': "\<forall>i<Suc n. \<exists>m. op kw i = Raises (ClientError m) \<and> sublist ''Throttling'' m"
    using thr err both(1) by (auto simp add: less_Suc_eq)
  have "retry_loop (op kw) initial_state =
        retry_loop (op kw) \<lparr>data = PDict [], is_done = False, attempts = Suc n,
              trace = concat (replicate (Suc n) [Invoked, Slept 1])\<rparr>"
    using thr' by (rule loop_after_throttling)
  then have loop: "retry_loop (op kw) initial_state = retry_loop (op kw) ?st"
    unfolding tr .
  have c: "call J service self op_name query kw =
      (case retry_loop (op kw) initial_state of
         None \<Rightarrow> None
       | Some st \<Rightarrow> Some (apply_query J q (data st), self, trace st))"
    using np op q by (simp add: call_def)
  have A: "\<exists>rest. events =
             concat (replicate n [Invoked, Slept 1]) @ [Invoked, Slept 1, Invoked] @ rest"
    if ret: "call J service self op_name query kw = Some (r, self', events)"
    for r self' events
  proof -
    from ret c loop obtain st where st: "retry_loop (op kw) ?st = Some st" "events = trace st"
      by (auto split: option.splits)
    from retry_loop_trace [OF st(1)] obtain rest where
      "trace st = trace ?st @ Invoked # rest" by auto
    with st(2) show ?thesis by simp
  qed
  have B: "call J service self op_name query kw \<noteq>
             Some (apply_query J q (PDict []), self,
                   concat (replicate n [Invoked, Slept 1]) @ [Invoked])"
  proof
    assume "call J service self op_name query kw =
             Some (apply_query J q (PDict []), self,
                   concat (replicate n [Invoked, Slept 1]) @ [Invoked])"
    from A [OF this] show False by simp
  qed
  have C: "call J service self op_name query kw =
             Some (apply_query J q d, self,
                   concat (replicate n [Invoked, Slept 1]) @ [Invoked, Slept 1, Invoked])"
    if ok: "op kw (Suc n) = Returns d" for d
  proof -
    have "retry_loop (op kw) initial_state =
          Some \<lparr>data = d, is_done = True, attempts = Suc (Suc n),
                trace = concat (replicate (Suc n) [Invoked, Slept 1]) @ [Invoked]\<rparr>"
      using thr' by (rule loop_ends_with) (simp_all add: attempt_returns ok)
    then have "retry_loop (op kw) initial_state =
          Some \<lparr>data = d, is_done = True, attempts = Suc (Suc n),
                trace = concat (replicate n [Invoked, Slept 1])
                          @ [Invoked, Slept 1, Invoked]\<rparr>"
      unfolding tr by simp
    with c show ?thesis by simp
  qed
  from A B C show ?thesis by blast
qed

theorem throttling_precedence_witness:
  "ignorable denied_throttling_msg \<and> sublist ''Throttling'' denied_throttling_msg
   \<and> call identifiers (scripted [Raises (ClientError denied_throttling_msg)] (Returns topic))
       sample_self ''get_topic_attributes'' (Some ''Attributes'') [] =
     Some (Inr (PDict [(''Owner'', PStr ''123456789012'')]), sample_self,
           [Invoked, Slept 1, Invoked])
   \<and> call identifiers (scripted [Raises (ClientError denied_throttling_msg)] (Returns topic))
       sample_self ''get_topic_attributes'' (Some ''Attributes'') [] \<noteq>
     Some (Inr PNone, sample_self, [Invoked])"
proof -
  let ?svc = "scripted [Raises (ClientError denied_throttling_msg)] (Returns topic)"
  let ?op = "script [Raises (ClientError denied_throttling_msg)] (Returns topic)"
  have np: "\<not> can_paginate (?svc (self_client sample_self)) ''get_topic_attributes''"
    by (simp add: scripted_def)
  have op: "operation (?svc (self_client sample_self)) ''get_topic_attributes'' = Some ?op"
    by (simp add: scripted_def)
  have thr: "\<forall>i<0. \<exists>m. ?op [] i = Raises (ClientError m) \<and> sublist ''Throttling'' m"
    by simp
  have err: "?op [] 0 = Raises (ClientError denied_throttling_msg)"
    by (simp add: script_def)
  have t: "sublist ''Throttling'' denied_throttling_msg"
    by (simp add: denied_throttling_msg_def sublist_Cons_right)
  have ign: "ignorable denied_throttling_msg"
    by (simp add: ignorable_def denied_throttling_msg_def sublist_Cons_right)
  have q: "compile_query identifiers (Some ''Attributes'') = Inr (Some ''Attributes'')"
    by (simp add: compile_query_def identifiers_def)
  have ok: "?op [] (Suc 0) = Returns topic" by (simp add: script_def)
  from throttling_precedence [where service = ?svc and self = sample_self
      and op_name = "''get_topic_attributes''" and kw = "[]" and n = 0 and J = identifiers,
      OF np op thr err t ign q] ok t ign
  show ?thesis by (simp add: apply_query_def identifiers_def topic_def)
qed

section \<open>Credential resolution\<close>













text \<open>
  C2, as amended. With no credentials passed and an account that has neither
  credentials, nor a profile, nor a role ARN, the constructor takes the role-assumption
  branch: it makes an STS client and calls \<open>assume_role\<close> with \<open>RoleArn=None\<close> and no
  external id. An exception of that call leaves the constructor as it is; when the call
  answers, the session is opened with the keys it returned.
\<close>

theorem unconfigured_account_assumes_role:
  assumes "kw_aws_creds kw = None"
    and "(case kw_config kw of Some c \<Rightarrow> c | None \<Rightarrow> get_config) acct_id = Some acct"
    and "acct_credentials acct = None" and "acct_profile acct = None"
    and "acct_role_arn acct = None"
  shows "take 2 (fst (init get_config assume_role service region acct_id kw))
           = [Sts_client, Assume_role None None]
         \<and> (\<forall>e. assume_role None None = Inl e \<longrightarrow>
               init get_config assume_role service region acct_id kw
                 = ([Sts_client, Assume_role None None], Inl e))
         \<and> (\<forall>key secret token. assume_role None None = Inr (key, secret, token) \<longrightarrow>
               (\<exists>obj. snd (init get_config assume_role service region acct_id kw) = Inr obj
                  \<and> cl_session (self_client obj) = Session_keys key secret token
                  \<and> profile obj = None \<and> role_arn obj = None \<and> external_id obj = None))"
proof (cases "assume_role None None")
  case (Inl e)
  with assms show ?thesis
    by (simp add: init_def init_attrs_def create_client_def open_session_def Let_def)
next
  case (Inr keys)
  obtain key secret token where k: "keys = (key, secret, token)" by (cases keys)
  obtain plog p where pl: "attach_placebo
      \<lparr>self_config = (case kw_config kw of Some c \<Rightarrow> c | None \<Rightarrow> get_config),
       service_name = service, region_name = region, account_id = acct_id,
       has_credentials = False, aws_creds = None, profile = None, external_id = None,
       role_arn = None, placebo = kw_placebo kw, placebo_dir = kw_placebo_dir kw,
       placebo_mode = (case kw_placebo_mode kw of None \<Rightarrow> ''record'' | Some m \<Rightarrow> m)\<rparr>
      = (plog, p)"
    by (cases "attach_placebo
      \<lparr>self_config = (case kw_config kw of Some c \<Rightarrow> c | None \<Rightarrow> get_config),
       service_name = service, region_name = region, account_id = acct_id,
       has_credentials = False, aws_creds = None, profile = None, external_id = None,
       role_arn = None, placebo = kw_placebo kw, placebo_dir = kw_placebo_dir kw,
       placebo_mode = (case kw_placebo_mode kw of None \<Rightarrow> ''record'' | Some m \<Rightarrow> m)\<rparr>")
  from assms Inr k pl show ?thesis
    by (simp add: init_def init_attrs_def create_client_def open_session_def Let_def
        awsclient_attrs.extend_def)
qed

theorem unconfigured_account_assumes_role_witness:
  "take 2 (fst (init bare_config granting_sts ''sns'' None ''123456789012'' no_kwargs)) =
     [Sts_client, Assume_role None None]
   \<and> (\<exists>obj. snd (init bare_config granting_sts ''sns'' None ''123456789012'' no_kwargs)
          = Inr obj
        \<and> cl_session (self_client obj) = Session_keys ''ASIAEXAMPLE'' ''secret'' ''token'')"
proof -
  have a: "kw_aws_creds no_kwargs = None" by (simp add: no_kwargs_def)
  have b: "(case kw_config no_kwargs of Some c \<Rightarrow> c | None \<Rightarrow> bare_config) ''123456789012''
      = Some bare_account"
    by (simp add: no_kwargs_def bare_config_def)
  have c: "acct_credentials bare_account = None" "acct_profile bare_account = None"
    "acct_role_arn bare_account = None"
    by (simp_all add: bare_account_def)
  have g: "granting_sts None None = Inr (''ASIAEXAMPLE'', ''secret'', ''token'')"
    by (simp add: granting_sts_def)
  from unconfigured_account_assumes_role [where kw = no_kwargs and get_config = bare_config
      and acct_id = "''123456789012''" and acct = bare_account
      and assume_role = granting_sts and service = "''sns''" and region = None,
      OF a b c] g
  show ?thesis by auto
qed

text \<open>
  C2 as stated fails: for an account with nothing configured the constructor does
  attempt a role assumption, and against a token service that requires a role ARN, as the
  SDK's parameter validation does, construction fails with that exception.
\<close>

theorem unconfigured_account_counterexample:
  "init bare_config validating_sts ''sns'' None ''123456789012'' no_kwargs =
     ([Sts_client, Assume_role None None], Inl (OtherException ''ParamValidationError''))"
  by (simp add: init_def init_attrs_def create_client_def open_session_def
      no_kwargs_def bare_config_def bare_account_def validating_sts_def Let_def)

end
